theory Spec2Isabelle
  imports Complex_Main
begin

section \<open>Terminal replay engine (src/src/main.jsx)\<close>

text \<open>
  JavaScript numbers that hold counts, indices and SGR parameters are modelled as
  \<open>nat\<close> or \<open>int\<close>; strings are \<open>string\<close>; \<open>null\<close>/\<open>undefined\<close> colours are
  \<open>None\<close>.  Every definition names the source function it embeds.
\<close>

subsection \<open>Colour resolution\<close>

text \<open>\<open>const clamp = (v, min, max) => Math.max(min, Math.min(max, v))\<close>\<close>

definition clamp :: "'a::linorder \<Rightarrow> 'a \<Rightarrow> 'a \<Rightarrow> 'a" where
  "clamp v lo hi = max lo (min hi v)"

definition DEFAULT_ANSI_PALETTE :: "string list" where
  "DEFAULT_ANSI_PALETTE =
     [''#000000'', ''#cd0000'', ''#00cd00'', ''#cdcd00'', ''#0000ee'', ''#cd00cd'', ''#00cdcd'',
      ''#e5e5e5'', ''#7f7f7f'', ''#ff0000'', ''#00ff00'', ''#ffff00'', ''#5c5cff'', ''#ff00ff'',
      ''#00ffff'', ''#ffffff'']"

definition hexDigit :: "nat \<Rightarrow> char" where
  "hexDigit d = ''0123456789abcdef'' ! (d mod 16)"

text \<open>\<open>Number.prototype.toString(16)\<close> on a non-negative integer.\<close>

fun toString16 :: "nat \<Rightarrow> string" where
  "toString16 n = (if n < 16 then [hexDigit n] else toString16 (n div 16) @ [hexDigit (n mod 16)])"

declare toString16.simps [simp del]

text \<open>\<open>String.prototype.padStart(2, "0")\<close>\<close>

definition padStart2 :: "string \<Rightarrow> string" where
  "padStart2 s = replicate (2 - length s) (CHR ''0'') @ s"

text \<open>
  \<open>toHexByte(value)\<close>: \<open>clamp(Math.round(value), 0, 255).toString(16).padStart(2, "0")\<close>.
  Every caller passes a non-negative integer (an SGR parameter, a cube step or a grey
  level), on which \<open>Math.round\<close> is the identity.
\<close>

definition toHexByte :: "nat \<Rightarrow> string" where
  "toHexByte v = padStart2 (toString16 (clamp v 0 255))"

definition rgbToHex :: "nat \<Rightarrow> nat \<Rightarrow> nat \<Rightarrow> string" where
  "rgbToHex r g b = ''#'' @ toHexByte r @ toHexByte g @ toHexByte b"

text \<open>Reading \<open>arr[i]\<close>: \<open>undefined\<close> past the end.\<close>

definition jsIndex :: "'a list \<Rightarrow> nat \<Rightarrow> 'a option" where
  "jsIndex xs i = (if i < length xs then Some (xs ! i) else None)"

definition step :: "nat list" where
  "step = [0, 95, 135, 175, 215, 255]"

text \<open>
  \<open>ansi256ToHex(index, palette)\<close>.  \<open>clamp(Number(index) || 0, 0, 255)\<close> on a
  non-negative integer is \<open>min index 255\<close>.  The indices into \<open>step\<close> are below 6.
\<close>

definition ansi256ToHex :: "nat \<Rightarrow> string list \<Rightarrow> string option" where
  "ansi256ToHex index palette =
     (let v = clamp index 0 255 in
      if v < 16 then jsIndex palette v
      else if v \<ge> 232 then
        (let level = 8 + (v - 232) * 10 in Some (rgbToHex level level level))
      else
        (let cube = v - 16;
             r = cube div 36;
             g = (cube mod 36) div 6;
             b = cube mod 6
         in Some (rgbToHex (step ! r) (step ! g) (step ! b))))"

text \<open>
  The resolver as the specification words it: direct palette entry, 6x6x6 cube through
  the step table, grey ramp.  It is compared with \<open>ansi256ToHex\<close> below.
\<close>

definition hex2 :: "nat \<Rightarrow> string" where
  "hex2 n = [hexDigit (n div 16), hexDigit (n mod 16)]"

definition resolve256_spec :: "nat \<Rightarrow> string list \<Rightarrow> string option" where
  "resolve256_spec index palette =
     (if index \<le> 15 then Some (palette ! index)
      else if index \<le> 231 then
        Some (''#'' @ hex2 ([0, 95, 135, 175, 215, 255] ! ((index - 16) div 36))
                   @ hex2 ([0, 95, 135, 175, 215, 255] ! (((index - 16) mod 36) div 6))
                   @ hex2 ([0, 95, 135, 175, 215, 255] ! ((index - 16) mod 6)))
      else
        Some (''#'' @ hex2 (8 + 10 * (index - 232)) @ hex2 (8 + 10 * (index - 232))
                   @ hex2 (8 + 10 * (index - 232))))"

subsection \<open>Style and SGR\<close>

record style =
  fg :: "string option"
  bg :: "string option"
  bold :: bool
  dim :: bool
  italic :: bool
  underline :: bool
  inverse :: bool
  strike :: bool

record theme =
  theme_fg :: string
  theme_bg :: string
  palette :: "string list"

text \<open>What \<open>getTerminalTheme\<close> returns for a header without a theme.\<close>

definition defaultTheme :: theme where
  "defaultTheme = \<lparr>theme_fg = ''#f5f5f5'', theme_bg = ''#111015'', palette = DEFAULT_ANSI_PALETTE\<rparr>"

definition makeDefaultStyle :: style where
  "makeDefaultStyle = \<lparr>fg = None, bg = None, bold = False, dim = False, italic = False,
     underline = False, inverse = False, strike = False\<rparr>"

text \<open>
  The body of the loop of \<open>applySgr\<close> at index \<open>i\<close>, where \<open>code = values[i]\<close> and
  \<open>rest\<close> holds \<open>values[i + 1 ..]\<close>: \<open>values[i + 1]\<close> is \<open>jsIndex rest 0\<close> and
  \<open>i + 2 < values.length\<close> is \<open>2 \<le> length rest\<close>.  It returns the new style and by
  how much the body itself advanced \<open>i\<close> (\<open>i += 2\<close>, \<open>i += 4\<close> or nothing).
\<close>

definition sgrBody :: "theme \<Rightarrow> nat \<Rightarrow> nat list \<Rightarrow> style \<Rightarrow> style \<times> nat" where
  "sgrBody th code rest st =
     (if code = 0 then (makeDefaultStyle, 0)
      else if code = 1 then (st\<lparr>bold := True\<rparr>, 0)
      else if code = 2 then (st\<lparr>dim := True\<rparr>, 0)
      else if code = 3 then (st\<lparr>italic := True\<rparr>, 0)
      else if code = 4 then (st\<lparr>underline := True\<rparr>, 0)
      else if code = 7 then (st\<lparr>inverse := True\<rparr>, 0)
      else if code = 9 then (st\<lparr>strike := True\<rparr>, 0)
      else if code = 22 then (st\<lparr>bold := False, dim := False\<rparr>, 0)
      else if code = 23 then (st\<lparr>italic := False\<rparr>, 0)
      else if code = 24 then (st\<lparr>underline := False\<rparr>, 0)
      else if code = 27 then (st\<lparr>inverse := False\<rparr>, 0)
      else if code = 29 then (st\<lparr>strike := False\<rparr>, 0)
      else if code \<ge> 30 \<and> code \<le> 37 then (st\<lparr>fg := jsIndex (palette th) (code - 30)\<rparr>, 0)
      else if code = 39 then (st\<lparr>fg := None\<rparr>, 0)
      else if code \<ge> 40 \<and> code \<le> 47 then (st\<lparr>bg := jsIndex (palette th) (code - 40)\<rparr>, 0)
      else if code = 49 then (st\<lparr>bg := None\<rparr>, 0)
      else if code \<ge> 90 \<and> code \<le> 97 then
        (st\<lparr>fg := jsIndex (palette th) (code - 90 + 8)\<rparr>, 0)
      else if code \<ge> 100 \<and> code \<le> 107 then
        (st\<lparr>bg := jsIndex (palette th) (code - 100 + 8)\<rparr>, 0)
      else if code = 38 \<or> code = 48 then
        (let isFg = (code = 38); mode = jsIndex rest 0 in
         if mode = Some 5 \<and> 2 \<le> length rest then
           (let color = ansi256ToHex (rest ! 1) (palette th) in
            (if isFg then st\<lparr>fg := color\<rparr> else st\<lparr>bg := color\<rparr>, 2))
         else if mode = Some 2 \<and> 4 \<le> length rest then
           (let color = Some (rgbToHex (rest ! 1) (rest ! 2) (rest ! 3)) in
            (if isFg then st\<lparr>fg := color\<rparr> else st\<lparr>bg := color\<rparr>, 4))
         else (st, 0))
      else (st, 0))"

text \<open>The \<open>for\<close> loop: after the body, \<open>i += 1\<close> moves to the next parameter.\<close>

fun sgrLoop :: "theme \<Rightarrow> nat list \<Rightarrow> style \<Rightarrow> style" where
  "sgrLoop th [] st = st"
| "sgrLoop th (code # rest) st =
     (case sgrBody th code rest st of (st', skip) \<Rightarrow> sgrLoop th (drop skip rest) st')"

text \<open>\<open>applySgr(params)\<close>: \<open>const values = params.length ? params : [0]\<close>, then the loop.\<close>

definition applySgr :: "theme \<Rightarrow> nat list \<Rightarrow> style \<Rightarrow> style" where
  "applySgr th params st = sgrLoop th (if params \<noteq> [] then params else [0]) st"

subsection \<open>Screen buffer\<close>

record cell =
  ch :: char
  cstyle :: style

text \<open>
  The closure variables of \<open>renderTerminalToHtml\<close> that replay mutates.  \<open>row\<close> and
  \<open>col\<close> are \<open>int\<close>: the source subtracts from them before clamping.
\<close>

record tstate =
  screen :: "cell list list"
  row :: int
  col :: int
  currentStyle :: style

datatype error = TypeError

text \<open>\<open>makeBlankCell\<close>: a space in the \<^emph>\<open>current\<close> style.\<close>

definition makeBlankCell :: "tstate \<Rightarrow> cell" where
  "makeBlankCell t = \<lparr>ch = CHR '' '', cstyle = currentStyle t\<rparr>"

definition defaultCell :: cell where
  "defaultCell = \<lparr>ch = CHR '' '', cstyle = makeDefaultStyle\<rparr>"

text \<open>The initial grid, also rebuilt by erase-in-display mode 2.\<close>

definition freshScreen :: "nat \<Rightarrow> nat \<Rightarrow> cell list list" where
  "freshScreen rows cols = replicate rows (replicate cols defaultCell)"

definition initTerm :: "nat \<Rightarrow> nat \<Rightarrow> tstate" where
  "initTerm rows cols =
     \<lparr>screen = freshScreen rows cols, row = 0, col = 0, currentStyle = makeDefaultStyle\<rparr>"

text \<open>\<open>ensureBounds\<close>\<close>

definition ensureBounds :: "nat \<Rightarrow> nat \<Rightarrow> tstate \<Rightarrow> tstate" where
  "ensureBounds rows cols t =
     t\<lparr>row := clamp (row t) 0 (int rows - 1), col := clamp (col t) 0 (int cols - 1)\<rparr>"

text \<open>
  \<open>line[c] = v\<close> on a JavaScript array: an index past the end extends the array.
  The holes this could leave are read by \<open>renderRow\<close> as a space in the empty style,
  which is what \<open>defaultCell\<close> renders as.  A negative index sets a property and
  leaves the elements alone.
\<close>

definition putAt :: "cell list \<Rightarrow> int \<Rightarrow> cell \<Rightarrow> cell list" where
  "putAt line c v =
     (if c < 0 then line
      else if nat c < length line then line[nat c := v]
      else line @ replicate (nat c - length line) defaultCell @ [v])"

text \<open>
  \<open>screen[r][c] = v\<close>: when \<open>screen[r]\<close> is \<open>undefined\<close> the assignment throws a
  TypeError.
\<close>

definition setCell :: "tstate \<Rightarrow> int \<Rightarrow> int \<Rightarrow> cell \<Rightarrow> error + tstate" where
  "setCell t r c v =
     (if 0 \<le> r \<and> nat r < length (screen t)
      then Inr (t\<lparr>screen := (screen t)[nat r := putAt (screen t ! nat r) c v]\<rparr>)
      else Inl TypeError)"

text \<open>
  The block that \<open>writeChar\<close> runs for a newline and again for a wrap:
  \<open>row += 1; col = 0; if (row >= rows) { screen.shift(); screen.push(blank row);
  row = rows - 1; }\<close>.  \<open>shift\<close> on an empty array does nothing.
\<close>

definition lineFeed :: "nat \<Rightarrow> nat \<Rightarrow> tstate \<Rightarrow> tstate" where
  "lineFeed rows cols t =
     (let t1 = t\<lparr>row := row t + 1, col := 0\<rparr> in
      if row t1 \<ge> int rows
      then t1\<lparr>screen := tl (screen t1) @ [replicate cols (makeBlankCell t1)],
              row := int rows - 1\<rparr>
      else t1)"

text \<open>\<open>writeChar(ch)\<close>; the control characters are LF (10), CR (13) and BS (8).\<close>

definition writeChar :: "nat \<Rightarrow> nat \<Rightarrow> char \<Rightarrow> tstate \<Rightarrow> error + tstate" where
  "writeChar rows cols c t =
     (if c = CHR 0x0A then Inr (lineFeed rows cols t)
      else if c = CHR 0x0D then Inr (t\<lparr>col := 0\<rparr>)
      else if c = CHR 0x08 then Inr (t\<lparr>col := max 0 (col t - 1)\<rparr>)
      else
        (let t1 = (if col t \<ge> int cols then lineFeed rows cols t else t) in
         case setCell t1 (row t1) (col t1) \<lparr>ch = c, cstyle = currentStyle t1\<rparr> of
           Inl e \<Rightarrow> Inl e
         | Inr t2 \<Rightarrow> Inr (t2\<lparr>col := col t2 + 1\<rparr>)))"

text \<open>
  \<open>for (c ...) screen[r][c] = makeBlankCell()\<close> over the column indices \<open>cs\<close>, in
  order; an empty range never touches \<open>screen[r]\<close>.
\<close>

fun blankCells :: "tstate \<Rightarrow> int \<Rightarrow> int list \<Rightarrow> error + tstate" where
  "blankCells t r [] = Inr t"
| "blankCells t r (c # cs) =
     (case setCell t r c (makeBlankCell t) of
        Inl e \<Rightarrow> Inl e
      | Inr t' \<Rightarrow> blankCells t' r cs)"

text \<open>\<open>eraseInLine(mode)\<close>\<close>

definition eraseInLine :: "nat \<Rightarrow> nat \<Rightarrow> tstate \<Rightarrow> error + tstate" where
  "eraseInLine cols mode t =
     (if mode = 0 then blankCells t (row t) [col t .. int cols - 1]
      else if mode = 1 then blankCells t (row t) [0 .. col t]
      else if mode = 2 then blankCells t (row t) [0 .. int cols - 1]
      else Inr t)"

text \<open>The nested loops of \<open>eraseInDisplay\<close>: every column of each row in \<open>rs\<close>.\<close>

fun blankRows :: "nat \<Rightarrow> tstate \<Rightarrow> int list \<Rightarrow> error + tstate" where
  "blankRows cols t [] = Inr t"
| "blankRows cols t (r # rs) =
     (case blankCells t r [0 .. int cols - 1] of
        Inl e \<Rightarrow> Inl e
      | Inr t' \<Rightarrow> blankRows cols t' rs)"

text \<open>\<open>eraseInDisplay(mode)\<close>\<close>

definition eraseInDisplay :: "nat \<Rightarrow> nat \<Rightarrow> nat \<Rightarrow> tstate \<Rightarrow> error + tstate" where
  "eraseInDisplay rows cols mode t =
     (if mode = 2 then Inr (t\<lparr>screen := freshScreen rows cols, row := 0, col := 0\<rparr>)
      else if mode = 0 then
        (case eraseInLine cols 0 t of
           Inl e \<Rightarrow> Inl e
         | Inr t' \<Rightarrow> blankRows cols t' [row t' + 1 .. int rows - 1])
      else if mode = 1 then
        (case eraseInLine cols 1 t of
           Inl e \<Rightarrow> Inl e
         | Inr t' \<Rightarrow> blankRows cols t' [0 .. row t' - 1])
      else Inr t)"

subsection \<open>Escape sequence interpreter\<close>

definition ESC :: char where "ESC = CHR 0x1B"
definition BEL :: char where "BEL = CHR 0x07"
definition BSL :: char where "BSL = CHR 0x5C"

text \<open>The character classes of the regular expressions: \<open>[@-~]\<close>, \<open>[0-9:;<=>?]\<close>,
  \<open>[<=>?]\<close> and the decimal digits.\<close>

definition isFinal :: "char \<Rightarrow> bool" where
  "isFinal c = (64 \<le> (of_char c :: nat) \<and> (of_char c :: nat) \<le> 126)"

definition isParamChar :: "char \<Rightarrow> bool" where
  "isParamChar c = (48 \<le> (of_char c :: nat) \<and> (of_char c :: nat) \<le> 63)"

definition isPrivate :: "char \<Rightarrow> bool" where
  "isPrivate c = (60 \<le> (of_char c :: nat) \<and> (of_char c :: nat) \<le> 63)"

definition isDigit :: "char \<Rightarrow> bool" where
  "isDigit c = (48 \<le> (of_char c :: nat) \<and> (of_char c :: nat) \<le> 57)"

text \<open>\<open>paramText.split(";")\<close>\<close>

fun splitSemi :: "string \<Rightarrow> string list" where
  "splitSemi [] = [[]]"
| "splitSemi (c # cs) =
     (if c = CHR '';'' then [] # splitSemi cs
      else (case splitSemi cs of [] \<Rightarrow> [[c]] | p # ps \<Rightarrow> (c # p) # ps))"

text \<open>
  \<open>Number(p) || 0\<close> on a piece of the parameter text, whose characters are among
  \<open>0-9 : < = > ?\<close>: the decimal value when the piece is all digits, and 0 for the
  empty piece and for a piece that \<open>Number\<close> turns into \<open>NaN\<close>.  A digit string too
  long for a double becomes \<open>Infinity\<close>, which every use below treats as it treats a
  large number.
\<close>

definition toParam :: "string \<Rightarrow> nat" where
  "toParam p =
     (if list_all isDigit p then foldl (\<lambda>acc c. 10 * acc + ((of_char c :: nat) - 48)) 0 p
      else 0)"

text \<open>\<open>x || d\<close> for a possibly missing number \<open>x\<close>.\<close>

definition orElse :: "nat option \<Rightarrow> nat \<Rightarrow> nat" where
  "orElse x d = (case x of None \<Rightarrow> d | Some v \<Rightarrow> if v = 0 then d else v)"

text \<open>
  \<open>handleEscape(seq)\<close>.  The source returns whether the sequence was recognised; the
  only caller ignores that, so the model returns the state alone.  The match of
  \<open>/^([0-9:;<=>?]*)([@-~])$/\<close> splits \<open>body\<close> into \<open>butlast body\<close> and
  \<open>last body\<close>.
\<close>

definition handleEscape :: "nat \<Rightarrow> nat \<Rightarrow> theme \<Rightarrow> string \<Rightarrow> tstate \<Rightarrow> error + tstate" where
  "handleEscape rows cols th seq t =
     (if take 2 seq \<noteq> [ESC, CHR ''[''] then Inr t
      else
        (let body = drop 2 seq in
         if body = [] \<or> \<not> isFinal (last body) \<or> \<not> list_all isParamChar (butlast body)
         then Inr t
         else
           (let paramText = dropWhile isPrivate (butlast body);
                params = (if paramText \<noteq> [] then map toParam (splitSemi paramText) else [0]);
                code = last body
            in
              if code = CHR ''H'' then
                (let r = int (orElse (jsIndex params 0) 1) - 1;
                     c = int (orElse (jsIndex params 1) 1) - 1
                 in Inr (t\<lparr>row := clamp r 0 (int rows - 1), col := clamp c 0 (int cols - 1)\<rparr>))
              else if code = CHR ''A'' then
                Inr (ensureBounds rows cols (t\<lparr>row := row t - int (orElse (jsIndex params 0) 1)\<rparr>))
              else if code = CHR ''B'' then
                Inr (ensureBounds rows cols (t\<lparr>row := row t + int (orElse (jsIndex params 0) 1)\<rparr>))
              else if code = CHR ''C'' then
                Inr (ensureBounds rows cols (t\<lparr>col := col t + int (orElse (jsIndex params 0) 1)\<rparr>))
              else if code = CHR ''D'' then
                Inr (ensureBounds rows cols (t\<lparr>col := col t - int (orElse (jsIndex params 0) 1)\<rparr>))
              else if code = CHR ''J'' then eraseInDisplay rows cols (orElse (jsIndex params 0) 0) t
              else if code = CHR ''K'' then eraseInLine cols (orElse (jsIndex params 0) 0) t
              else if code = CHR ''m'' then
                Inr (t\<lparr>currentStyle := applySgr th params (currentStyle t)\<rparr>)
              else Inr t)))"

text \<open>
  The scan of an OSC string from \<open>j = i + 2\<close>: the result is the text from the new \<open>i\<close>
  on, after BEL or after ESC backslash, and the empty text when no terminator comes.
\<close>

fun skipOsc :: "string \<Rightarrow> string" where
  "skipOsc [] = []"
| "skipOsc (c # cs) =
     (if c = BEL then cs
      else if c = ESC \<and> jsIndex cs 0 = Some BSL then drop 1 cs
      else skipOsc cs)"

text \<open>The same for a DCS, SOS, PM or APC string, which only ESC backslash ends.\<close>

fun skipString :: "string \<Rightarrow> string" where
  "skipString [] = []"
| "skipString (c # cs) =
     (if c = ESC \<and> jsIndex cs 0 = Some BSL then drop 1 cs
      else skipString cs)"

lemma length_skipOsc: "length (skipOsc xs) \<le> length xs"
  by (induction xs) auto

lemma length_skipString: "length (skipString xs) \<le> length xs"
  by (induction xs) auto

text \<open>
  \<open>processText(text)\<close>.  The argument is the text from index \<open>i\<close> on; \<open>text[i + 1]\<close>
  is the head of \<open>rest\<close>.  For CSI, \<open>takeWhile\<close>/\<open>dropWhile\<close> run the inner
  \<open>while (j < text.length && !/[@-~]/.test(text[j])) j += 1\<close>.
\<close>

function processText :: "nat \<Rightarrow> nat \<Rightarrow> theme \<Rightarrow> string \<Rightarrow> tstate \<Rightarrow> error + tstate" where
  "processText rows cols th [] t = Inr t"
| "processText rows cols th (c # rest) t =
     (if c = ESC then
        (case rest of
           [] \<Rightarrow> Inr t
         | nxt # others \<Rightarrow>
             if nxt = CHR ''['' then
               (let pre = takeWhile (\<lambda>x. \<not> isFinal x) others;
                    post = dropWhile (\<lambda>x. \<not> isFinal x) others
                in case post of
                     [] \<Rightarrow> Inr t
                   | fin # after \<Rightarrow>
                       (case handleEscape rows cols th (c # nxt # pre @ [fin]) t of
                          Inl e \<Rightarrow> Inl e
                        | Inr t' \<Rightarrow> processText rows cols th after t'))
             else if nxt = CHR '']'' then processText rows cols th (skipOsc others) t
             else if nxt = CHR ''P'' \<or> nxt = CHR ''X'' \<or> nxt = CHR ''^'' \<or> nxt = CHR ''_''
               then processText rows cols th (skipString others) t
             else processText rows cols th others t)
      else
        (case writeChar rows cols c t of
           Inl e \<Rightarrow> Inl e
         | Inr t' \<Rightarrow> processText rows cols th rest t'))"
  by pat_completeness auto
termination
proof (relation "measure (\<lambda>(rows, cols, th, text, t). length text)", goal_cases)
  case 1
  show ?case by simp
next
  case (2 rows cols th c rest t nxt others pre post fin after t')
  have "length (dropWhile (\<lambda>x. \<not> isFinal x) others) \<le> length others"
    by (rule length_dropWhile_le)
  moreover from 2 have "dropWhile (\<lambda>x. \<not> isFinal x) others = fin # after"
    by simp
  then have "length (dropWhile (\<lambda>x. \<not> isFinal x) others) = Suc (length after)"
    by simp
  moreover from 2 have "length rest = Suc (length others)" by simp
  ultimately show ?case by simp
next
  case (3 rows cols th c rest t nxt others)
  then show ?case using length_skipOsc [of others] by simp
next
  case (4 rows cols th c rest t nxt others)
  then show ?case using length_skipString [of others] by simp
next
  case (5 rows cols th c rest t nxt others)
  then show ?case by simp
next
  case (6 rows cols th c rest t)
  then show ?case by simp
qed

declare processText.simps(2) [simp del]

subsection \<open>Replay and the run renderer\<close>

record outputEvent =
  time :: real
  data :: string

text \<open>\<open>for (const event of eventsUntilTime) processText(event.data)\<close>\<close>

fun replay :: "nat \<Rightarrow> nat \<Rightarrow> theme \<Rightarrow> outputEvent list \<Rightarrow> tstate \<Rightarrow> error + tstate" where
  "replay rows cols th [] t = Inr t"
| "replay rows cols th (e # es) t =
     (case processText rows cols th (data e) t of
        Inl err \<Rightarrow> Inl err
      | Inr t' \<Rightarrow> replay rows cols th es t')"

text \<open>\<open>escapeHtml(text)\<close>\<close>

definition escapeHtml :: "string \<Rightarrow> string" where
  "escapeHtml text = concat (map (\<lambda>c.
      if c = CHR ''&'' then ''&amp;''
      else if c = CHR ''<'' then ''&lt;''
      else if c = CHR ''>'' then ''&gt;''
      else if c = CHR 0x22 then ''&quot;''
      else [c]) text)"

text \<open>A colour is truthy when it is a non-empty string.\<close>

definition orEmpty :: "string option \<Rightarrow> string" where
  "orEmpty x = (case x of None \<Rightarrow> [] | Some v \<Rightarrow> v)"

definition flag :: "bool \<Rightarrow> string" where
  "flag b = (if b then ''1'' else ''0'')"

text \<open>\<open>cellStyleKey(style)\<close>\<close>

definition cellStyleKey :: "style \<Rightarrow> string" where
  "cellStyleKey st =
     orEmpty (fg st) @ ''|'' @ orEmpty (bg st) @ ''|'' @ flag (bold st) @ ''|'' @ flag (italic st)
       @ ''|'' @ flag (underline st) @ ''|'' @ flag (inverse st) @ ''|'' @ flag (strike st)
       @ ''|'' @ flag (dim st)"

text \<open>\<open>Array.prototype.join(sep)\<close>\<close>

fun joinWith :: "string \<Rightarrow> string list \<Rightarrow> string" where
  "joinWith sep [] = []"
| "joinWith sep [x] = x"
| "joinWith sep (x # y # ys) = x @ sep @ joinWith sep (y # ys)"

text \<open>\<open>cellStyleToCss(style)\<close>\<close>

definition cellStyleToCss :: "style \<Rightarrow> string" where
  "cellStyleToCss st =
     (let f = (if inverse st then bg st else fg st);
          b = (if inverse st then fg st else bg st);
          css = (if orEmpty f \<noteq> [] then [''color:'' @ orEmpty f] else [])
              @ (if orEmpty b \<noteq> [] then [''background-color:'' @ orEmpty b] else [])
              @ (if bold st then [''font-weight:700''] else [])
              @ (if italic st then [''font-style:italic''] else [])
              @ (if underline st \<or> strike st then
                   [''text-decoration:'' @ joinWith '' ''
                      ((if underline st then [''underline''] else [])
                       @ (if strike st then [''line-through''] else []))]
                 else [])
              @ (if dim st then [''opacity:0.75''] else [])
      in joinWith '';'' css)"

text \<open>
  The local variables of \<open>renderRow\<close> (\<open>output\<close>, \<open>runText\<close>, \<open>runKey\<close>, \<open>runCss\<close>)
  and one iteration of its loop over the cells.
\<close>

definition wrapRun :: "string \<Rightarrow> string \<Rightarrow> string" where
  "wrapRun css txt =
     (if css \<noteq> [] then ''<span style='' @ [CHR 0x22] @ css @ [CHR 0x22] @ ''>'' @ txt @ ''</span>''
      else txt)"

definition renderCell ::
  "string \<times> string \<times> string option \<times> string \<Rightarrow> cell \<Rightarrow> string \<times> string \<times> string option \<times> string" where
  "renderCell acc cl =
     (case acc of (output, runText, runKey, runCss) \<Rightarrow>
        (let key = cellStyleKey (cstyle cl);
             (runKey1, runCss1) =
               (if runKey = None then (Some key, cellStyleToCss (cstyle cl)) else (runKey, runCss))
         in if Some key \<noteq> runKey1
            then (output @ wrapRun runCss1 (escapeHtml runText), [ch cl], Some key,
                  cellStyleToCss (cstyle cl))
            else (output, runText @ [ch cl], runKey1, runCss1)))"

definition renderRow :: "cell list \<Rightarrow> string" where
  "renderRow line =
     (case foldl renderCell ([], [], None, []) line of
        (output, runText, runKey, runCss) \<Rightarrow> output @ wrapRun runCss (escapeHtml runText))"

text \<open>
  \<open>renderTerminalToHtml(rows, cols, eventsUntilTime, theme)\<close>: replay from the blank
  grid, then \<open>screen.map(renderRow).join("\n")\<close>.
\<close>

definition renderTerminalToHtml ::
  "nat \<Rightarrow> nat \<Rightarrow> outputEvent list \<Rightarrow> theme \<Rightarrow> error + string" where
  "renderTerminalToHtml rows cols eventsUntilTime th =
     (case replay rows cols th eventsUntilTime (initTerm rows cols) of
        Inl err \<Rightarrow> Inl err
      | Inr t \<Rightarrow> Inr (joinWith [CHR 0x0A] (map renderRow (screen t))))"

subsection \<open>Grid invariant\<close>

text \<open>
  The screen has \<open>rows\<close> lines and the cursor row indexes one of them; \<open>sameCursor\<close>
  relates a state to one that differs from it only in the cells.
\<close>

definition gridOk :: "nat \<Rightarrow> tstate \<Rightarrow> bool" where
  "gridOk rows t = (length (screen t) = rows \<and> 0 \<le> row t \<and> row t < int rows)"



section \<open>Cast parsing (src/src/lib/castParser.js)\<close>

text \<open>
  Times are JavaScript numbers; the model computes with them as \<open>real\<close>, in exact
  arithmetic.  \<open>NonFinite\<close> stands for the values \<open>Number.isFinite\<close> rejects.
\<close>

datatype jsnum = Finite real | NonFinite

text \<open>
  One entry of an events array.  \<open>NotEvent\<close> is an entry that is not an array or has
  fewer than three elements; \<open>Event n k d\<close> is an array with \<open>Number(event[0]) = n\<close>,
  \<open>event[1] = k\<close> and \<open>event[2] = d\<close>.
\<close>

datatype event = NotEvent | Event jsnum string string

text \<open>\<open>rawTime < prevRaw\<close>, where \<open>prevRaw\<close> starts as \<open>-Infinity\<close> (\<open>None\<close>).\<close>

definition belowPrev :: "real \<Rightarrow> real option \<Rightarrow> bool" where
  "belowPrev rawTime prevRaw = (case prevRaw of None \<Rightarrow> False | Some p \<Rightarrow> rawTime < p)"

text \<open>
  The loop of \<open>normalizeEvents\<close> with its variables \<open>cursor\<close> and \<open>prevRaw\<close>; the
  result lists the arrays pushed to \<open>normalized\<close>, in order.
\<close>

fun normalizeLoop :: "bool \<Rightarrow> real \<Rightarrow> real option \<Rightarrow> event list \<Rightarrow> (real \<times> string \<times> string) list" where
  "normalizeLoop useDelta cursor prevRaw [] = []"
| "normalizeLoop useDelta cursor prevRaw (NotEvent # es) = normalizeLoop useDelta cursor prevRaw es"
| "normalizeLoop useDelta cursor prevRaw (Event NonFinite k d # es) =
     normalizeLoop useDelta cursor prevRaw es"
| "normalizeLoop useDelta cursor prevRaw (Event (Finite rawTime) k d # es) =
     (if useDelta then
        (let cursor' = cursor + max 0 rawTime in
         (cursor', k, d) # normalizeLoop useDelta cursor' (Some rawTime) es)
      else if belowPrev rawTime prevRaw then
        (let cursor' = cursor + max 0 rawTime in
         (cursor', k, d) # normalizeLoop useDelta cursor' (Some rawTime) es)
      else (rawTime, k, d) # normalizeLoop useDelta rawTime (Some rawTime) es)"

text \<open>\<open>normalizeEvents(events, version)\<close>, with \<open>useDelta = Number(version) >= 3\<close>.\<close>

definition normalizeEvents :: "event list \<Rightarrow> real \<Rightarrow> (real \<times> string \<times> string) list" where
  "normalizeEvents es version = normalizeLoop (version \<ge> 3) 0 None es"

text \<open>The finite times of the well-formed entries, in order.\<close>

fun rawTimes :: "event list \<Rightarrow> real list" where
  "rawTimes [] = []"
| "rawTimes (Event (Finite t) k d # es) = t # rawTimes es"
| "rawTimes (e # es) = rawTimes es"


section \<open>Timeline model (src/unnamed/part_000)\<close>

text \<open>
  A segment.  \<open>seg_id\<close> and \<open>seg_end\<close> are the fields \<open>id\<close> and \<open>end\<close>.  A
  \<open>timelineDuration\<close> that is missing or not a finite number is \<open>None\<close>; a \<open>sourceId\<close>
  of \<open>null\<close> is \<open>None\<close>.
\<close>

record segment =
  seg_id :: string
  label :: string
  sourceId :: "string option"
  start :: real
  seg_end :: real
  timelineDuration :: "real option"

record source =
  src_id :: string
  src_events :: "event list"
  src_outputEvents :: "outputEvent list"

text \<open>
  The editor state, with the fields the modelled operations read or write.  The status
  text, the menu position and the undo history are left out.  \<open>menuClipId\<close> is
  \<open>contextMenu.clipId\<close>.
\<close>

record model =
  events :: "event list"
  outputEvents :: "outputEvent list"
  sources :: "source list"
  composedDuration :: real
  segments :: "segment list"
  selectedClipId :: "string option"
  selectedClipIds :: "string list"
  playheadTime :: real
  clipboardSegment :: "segment option"
  menuClipId :: "string option"

definition sourceLength :: "segment \<Rightarrow> real" where
  "sourceLength seg = max 0.00001 (seg_end seg - start seg)"

definition segmentLength :: "segment \<Rightarrow> real" where
  "segmentLength seg =
     max 0.00001 (case timelineDuration seg of Some d \<Rightarrow> d | None \<Rightarrow> sourceLength seg)"

text \<open>\<open>rebuildComposedDuration(model)\<close>\<close>

definition rebuildComposedDuration :: "model \<Rightarrow> model" where
  "rebuildComposedDuration m =
     m\<lparr>composedDuration := foldl (\<lambda>sum seg. sum + segmentLength seg) 0 (segments m)\<rparr>"

text \<open>\<open>clipStartInTimeline(segments, index)\<close>, for \<open>index \<le> segments.length\<close>.\<close>

definition clipStartInTimeline :: "segment list \<Rightarrow> nat \<Rightarrow> real" where
  "clipStartInTimeline segs index = foldl (\<lambda>s seg. s + segmentLength seg) 0 (take index segs)"



text \<open>
  The values \<open>splitAtPlayhead\<close> computes for the segment that contains the playhead,
  \<open>offset = playheadTime - cursor\<close> into it: \<open>ratio\<close>, \<open>splitSourceTime\<close> and the
  objects \<open>left\<close> and \<open>right\<close>.  \<open>idL\<close> and \<open>idR\<close> are the two values that
  \<open>crypto.randomUUID()\<close> returns.
\<close>

definition splitRatio :: "segment \<Rightarrow> real \<Rightarrow> real" where
  "splitRatio seg offset = clamp (offset / segmentLength seg) 0 1"

definition splitSourceTime :: "segment \<Rightarrow> real \<Rightarrow> real" where
  "splitSourceTime seg offset = start seg + sourceLength seg * splitRatio seg offset"

definition leftPiece :: "string \<Rightarrow> segment \<Rightarrow> real \<Rightarrow> segment" where
  "leftPiece idL seg offset =
     seg\<lparr>seg_id := idL, seg_end := splitSourceTime seg offset,
         timelineDuration := Some (max 0.01 (segmentLength seg * splitRatio seg offset)),
         label := label seg @ '' A''\<rparr>"

definition rightPiece :: "string \<Rightarrow> segment \<Rightarrow> real \<Rightarrow> segment" where
  "rightPiece idR seg offset =
     seg\<lparr>seg_id := idR, start := splitSourceTime seg offset,
         timelineDuration := Some (max 0.01 (segmentLength seg * (1 - splitRatio seg offset))),
         label := label seg @ '' B''\<rparr>"

text \<open>
  The loop of \<open>splitAtPlayhead\<close>: \<open>before\<close> holds \<open>segments[0 .. i - 1]\<close>, the list
  argument \<open>segments[i ..]\<close>.  \<open>None\<close> is \<open>return false\<close>; otherwise the segment list
  after \<open>splice(i, 1, left, right)\<close> and \<open>left.id\<close>.
\<close>

fun splitLoop ::
  "string \<Rightarrow> string \<Rightarrow> real \<Rightarrow> segment list \<Rightarrow> segment list \<Rightarrow> real \<Rightarrow> (segment list \<times> string) option" where
  "splitLoop idL idR playhead before [] cursor = None"
| "splitLoop idL idR playhead before (seg # rest) cursor =
     (let timelineLen = segmentLength seg in
      if playhead > cursor \<and> playhead < cursor + timelineLen then
        (let offset = playhead - cursor in
         if splitSourceTime seg offset \<le> start seg + 0.01
            \<or> splitSourceTime seg offset \<ge> seg_end seg - 0.01
         then None
         else
           (let left = leftPiece idL seg offset;
                right = rightPiece idR seg offset
            in Some (before @ [left, right] @ rest, seg_id left)))
      else splitLoop idL idR playhead (before @ [seg]) rest (cursor + timelineLen))"

text \<open>\<open>splitAtPlayhead(model)\<close>: the returned flag and the model after the call.\<close>

definition splitAtPlayhead :: "string \<Rightarrow> string \<Rightarrow> model \<Rightarrow> bool \<times> model" where
  "splitAtPlayhead idL idR m =
     (if segments m = [] \<or> playheadTime m \<le> 0 \<or> playheadTime m \<ge> composedDuration m
      then (False, m)
      else
        (case splitLoop idL idR (playheadTime m) [] (segments m) 0 of
           None \<Rightarrow> (False, m)
         | Some (segs, leftId) \<Rightarrow> (True, m\<lparr>segments := segs, selectedClipId := Some leftId\<rparr>)))"

text \<open>\<open>Array.prototype.findIndex\<close>, with \<open>None\<close> for \<open>-1\<close>.\<close>

fun findIndex :: "('a \<Rightarrow> bool) \<Rightarrow> 'a list \<Rightarrow> nat option" where
  "findIndex P [] = None"
| "findIndex P (x # xs) =
     (if P x then Some 0 else (case findIndex P xs of None \<Rightarrow> None | Some i \<Rightarrow> Some (Suc i)))"

text \<open>\<open>arr.splice(i, 0, x)\<close> and \<open>arr.splice(i, 1)\<close>, for \<open>i \<le> arr.length\<close>.\<close>

definition insertAt :: "'a list \<Rightarrow> nat \<Rightarrow> 'a \<Rightarrow> 'a list" where
  "insertAt xs i x = take i xs @ [x] @ drop i xs"

definition removeAt :: "'a list \<Rightarrow> nat \<Rightarrow> 'a list" where
  "removeAt xs i = take i xs @ drop (Suc i) xs"

text \<open>
  \<open>moveSegment(model, sourceId, targetId, placeAfter)\<close>.  The insertion index is
  computed in \<open>int\<close>, as the source decrements before it clamps.
\<close>

definition moveSegment :: "model \<Rightarrow> string \<Rightarrow> string \<Rightarrow> bool \<Rightarrow> bool \<times> model" where
  "moveSegment m srcId targetId placeAfter =
     (case (findIndex (\<lambda>s. seg_id s = srcId) (segments m),
            findIndex (\<lambda>s. seg_id s = targetId) (segments m)) of
        (Some sourceIndex, Some targetIndex) \<Rightarrow>
          if sourceIndex = targetIndex then (False, m)
          else
            (let seg = segments m ! sourceIndex;
                 removed = removeAt (segments m) sourceIndex;
                 i0 = int targetIndex;
                 i1 = (if sourceIndex < targetIndex then i0 - 1 else i0);
                 i2 = (if placeAfter then i1 + 1 else i1);
                 insertionIndex = clamp i2 0 (int (length removed))
             in (True, m\<lparr>segments := insertAt removed (nat insertionIndex) seg,
                          selectedClipId := Some (seg_id seg)\<rparr>))
      | _ \<Rightarrow> (False, m))"

text \<open>
  A string that is used as a condition: \<open>null\<close> and the empty string are falsy.
\<close>

definition truthy :: "string option \<Rightarrow> bool" where
  "truthy x = (case x of None \<Rightarrow> False | Some s \<Rightarrow> s \<noteq> [])"







section \<open>Editor operations (src/unnamed/part_001)\<close>

text \<open>
  \<open>mutate(mutator)\<close>: run the mutator, rebuild the composed duration and clamp the
  playhead.  \<open>preview\<close> is \<open>Some d\<close> when the remote preview tab is showing a source of
  duration \<open>d\<close>, which then widens the clamp.  Recording the undo history is left out.
\<close>

definition mutate :: "real option \<Rightarrow> (model \<Rightarrow> model) \<Rightarrow> model \<Rightarrow> model" where
  "mutate preview mutator m =
     (let m1 = rebuildComposedDuration (mutator m);
          previewClampMax =
            (case preview of Some d \<Rightarrow> max (composedDuration m1) d | None \<Rightarrow> composedDuration m1)
      in m1\<lparr>playheadTime := clamp (playheadTime m1) 0 previewClampMax\<rparr>)"

definition healTolerance :: real where
  "healTolerance = 0.02"

text \<open>\<open>seg.sourceId || null\<close>\<close>

definition sourceIdOrNull :: "segment \<Rightarrow> string option" where
  "sourceIdOrNull seg = (if truthy (sourceId seg) then sourceId seg else None)"

text \<open>
  \<open>healCandidate\<close>: the indices and segments to merge, or \<open>None\<close>.  The mutator of
  \<open>healSelectedClips\<close> repeats the same checks on the same state.
\<close>

definition healCandidate :: "model \<Rightarrow> (nat \<times> nat \<times> segment \<times> segment) option" where
  "healCandidate m =
     (if length (selectedClipIds m) \<noteq> 2 then None
      else
        (case (findIndex (\<lambda>seg. seg_id seg = selectedClipIds m ! 0) (segments m),
               findIndex (\<lambda>seg. seg_id seg = selectedClipIds m ! 1) (segments m)) of
           (Some firstIndex, Some secondIndex) \<Rightarrow>
             (let leftIndex = min firstIndex secondIndex;
                  rightIndex = max firstIndex secondIndex
              in if rightIndex \<noteq> leftIndex + 1 then None
                 else
                   (let left = segments m ! leftIndex;
                        right = segments m ! rightIndex
                    in if sourceIdOrNull left \<noteq> sourceIdOrNull right then None
                       else if \<bar>seg_end left - start right\<bar> > healTolerance then None
                       else Some (leftIndex, rightIndex, left, right)))
         | _ \<Rightarrow> None))"

text \<open>
  \<open>left.label.replace(/\s+[AB]$/i, "") || left.label\<close>, on labels over the ASCII
  range: a final A or B after at least one white-space character is removed together
  with all the white space before it.
\<close>

definition isSpace :: "char \<Rightarrow> bool" where
  "isSpace c = (c = CHR '' '' \<or> c = CHR 0x09 \<or> c = CHR 0x0A \<or> c = CHR 0x0B \<or> c = CHR 0x0C
     \<or> c = CHR 0x0D)"

definition healLabel :: "string \<Rightarrow> string" where
  "healLabel l =
     (case rev l of
        [] \<Rightarrow> l
      | c # r \<Rightarrow>
          if (c = CHR ''A'' \<or> c = CHR ''B'' \<or> c = CHR ''a'' \<or> c = CHR ''b'')
             \<and> (case r of [] \<Rightarrow> False | s # _ \<Rightarrow> isSpace s)
          then (let stripped = rev (dropWhile isSpace r) in if stripped \<noteq> [] then stripped else l)
          else l)"

text \<open>
  The mutator of \<open>healSelectedClips\<close>; \<open>newId\<close> is the value of
  \<open>crypto.randomUUID()\<close>.  \<open>splice(leftIndex, 2, merged)\<close> replaces the two segments.
\<close>

definition healMutator :: "string \<Rightarrow> model \<Rightarrow> model" where
  "healMutator newId m =
     (case healCandidate m of
        None \<Rightarrow> m
      | Some (leftIndex, rightIndex, left, right) \<Rightarrow>
          (let merged = left\<lparr>seg_id := newId, seg_end := seg_end right,
                  timelineDuration := Some (segmentLength left + segmentLength right),
                  label := healLabel (label left)\<rparr>
           in m\<lparr>segments := take leftIndex (segments m) @ [merged] @ drop (leftIndex + 2) (segments m),
                 selectedClipId := Some newId,
                 selectedClipIds := [newId]\<rparr>))"

text \<open>\<open>healSelectedClips\<close>: \<open>if (!canHeal) return; mutate(...)\<close>\<close>

definition healSelectedClips :: "real option \<Rightarrow> string \<Rightarrow> model \<Rightarrow> model" where
  "healSelectedClips preview newId m =
     (if healCandidate m = None then m else mutate preview (healMutator newId) m)"

text \<open>What \<open>window.prompt\<close> returned: cancelled, or a text with its \<open>Number(raw)\<close>.\<close>

datatype prompt = Cancelled | Entered jsnum

text \<open>\<open>scaleSingleClip(clipId)\<close>\<close>

definition scaleSingleClip :: "real option \<Rightarrow> prompt \<Rightarrow> string \<Rightarrow> model \<Rightarrow> model" where
  "scaleSingleClip preview answer clipId m =
     (case findIndex (\<lambda>s. seg_id s = clipId) (segments m) of
        None \<Rightarrow> m
      | Some i \<Rightarrow>
          (case answer of
             Cancelled \<Rightarrow> m
           | Entered NonFinite \<Rightarrow> m
           | Entered (Finite target) \<Rightarrow>
               if target \<le> 0 then m
               else mutate preview
                 (\<lambda>m'. case findIndex (\<lambda>s. seg_id s = clipId) (segments m') of
                          None \<Rightarrow> m'
                        | Some j \<Rightarrow>
                            m'\<lparr>segments := (segments m')[j := (segments m' ! j)
                                  \<lparr>timelineDuration := Some (max 0.01 target)\<rparr>]\<rparr>) m))"

text \<open>\<open>scaleSelectedClipsTotal()\<close>\<close>

definition scaleSelectedClipsTotal :: "real option \<Rightarrow> prompt \<Rightarrow> model \<Rightarrow> model" where
  "scaleSelectedClipsTotal preview answer m =
     (let selected = filter (\<lambda>seg. seg_id seg \<in> set (selectedClipIds m)) (segments m) in
      if length selected < 2 then m
      else
        (case answer of
           Cancelled \<Rightarrow> m
         | Entered NonFinite \<Rightarrow> m
         | Entered (Finite target) \<Rightarrow>
             if target \<le> 0 then m
             else mutate preview
               (\<lambda>m'. let selectedSegs =
                             filter (\<lambda>seg. seg_id seg \<in> set (selectedClipIds m')) (segments m');
                           total = foldl (\<lambda>sum seg. sum + segmentLength seg) 0 selectedSegs
                       in if total \<le> 0 then m'
                          else
                            (let factor = target / total in
                             m'\<lparr>segments := map (\<lambda>seg.
                                   if seg_id seg \<in> set (selectedClipIds m')
                                   then seg\<lparr>timelineDuration :=
                                          Some (max 0.01 (segmentLength seg * factor))\<rparr>
                                   else seg) (segments m')\<rparr>)) m))"

datatype menuAction =
  ScaleSelected | Copy | Cut | Delete | ScaleClip | PasteBefore | PasteAfter | OtherAction

text \<open>\<open>a || b\<close> on nullable strings.\<close>

definition orStr :: "string option \<Rightarrow> string option \<Rightarrow> string option" where
  "orStr a b = (if truthy a then a else b)"

text \<open>\<open>label.endsWith(" Copy") ? label : `${label} Copy`\<close>\<close>

definition copyLabel :: "string \<Rightarrow> string" where
  "copyLabel l = (if drop (length l - 5) l = '' Copy'' then l else l @ '' Copy'')"

text \<open>
  The mutator shared by cut and delete after the clipboard write:
  \<open>splice(clipIndex, 1)\<close>, then the selection moves to the segment before.
\<close>

definition removeClip :: "nat \<Rightarrow> model \<Rightarrow> model" where
  "removeClip clipIndex m =
     (let segs = removeAt (segments m) clipIndex;
          sel = map_option seg_id (jsIndex segs (clipIndex - 1))
      in m\<lparr>segments := segs,
            selectedClipId := sel,
            selectedClipIds := (if truthy sel then [the sel] else []),
            menuClipId := None\<rparr>)"

text \<open>
  \<open>applyMenuAction(action, clipIdOverride)\<close>, in three parts.  First the index of the
  clip the action is about: \<open>clipId = clipIdOverride || model.contextMenu.clipId ||
  model.selectedClipId\<close> and \<open>clipIndex = clipId ? findIndex(...) : -1\<close>.
\<close>

definition menuClipIndex :: "string option \<Rightarrow> model \<Rightarrow> nat option" where
  "menuClipIndex clipIdOverride m =
     (let clipId = orStr clipIdOverride (orStr (menuClipId m) (selectedClipId m))
      in if truthy clipId
         then findIndex (\<lambda>segment. seg_id segment = the clipId) (segments m)
         else None)"

text \<open>
  Then the branches that need the clip, \<open>clip = model.segments[clipIndex]\<close>.
  \<open>answer\<close> is what the prompt of the scale action returns and \<open>newId\<close> the fresh id
  of a pasted segment.
\<close>

definition clipAction ::
  "real option \<Rightarrow> prompt \<Rightarrow> string \<Rightarrow> menuAction \<Rightarrow> nat \<Rightarrow> model \<Rightarrow> model" where
  "clipAction preview answer newId action i m =
     (let clip = segments m ! i in
      if action = Copy then m\<lparr>clipboardSegment := Some clip, menuClipId := None\<rparr>
      else if action = Cut then
        (if length (segments m) \<le> 1 then m
         else mutate preview (\<lambda>m'. removeClip i (m'\<lparr>clipboardSegment := Some clip\<rparr>)) m)
      else if action = Delete then
        (if length (segments m) \<le> 1 then m
         else mutate preview (removeClip i) m)
      else if action = ScaleClip
        then scaleSingleClip preview answer (seg_id clip) (m\<lparr>menuClipId := None\<rparr>)
      else if action = PasteBefore \<or> action = PasteAfter then
        (case clipboardSegment m of
           None \<Rightarrow> m
         | Some cb \<Rightarrow>
             mutate preview
               (\<lambda>m'. let pasted = cb\<lparr>seg_id := newId, label := copyLabel (label cb)\<rparr>;
                          pos = (if action = PasteBefore then i else i + 1)
                      in m'\<lparr>segments := insertAt (segments m') pos pasted,
                             selectedClipId := Some newId,
                             selectedClipIds := [newId],
                             menuClipId := None\<rparr>) m)
      else m)"

text \<open>
  The function itself: \<open>scale-selected\<close> runs before the \<open>if (!clip) return\<close>, every
  other action after it.
\<close>

definition applyMenuAction ::
  "real option \<Rightarrow> prompt \<Rightarrow> string \<Rightarrow> menuAction \<Rightarrow> string option \<Rightarrow> model \<Rightarrow> model" where
  "applyMenuAction preview answer newId action clipIdOverride m =
     (if action = ScaleSelected
      then scaleSelectedClipsTotal preview answer (m\<lparr>menuClipId := None\<rparr>)
      else
        (case menuClipIndex clipIdOverride m of
           None \<Rightarrow> m
         | Some i \<Rightarrow> clipAction preview answer newId action i m))"

text \<open>
  The Delete button of the clip panel: \<open>mutate\<close> around a mutator that returns early on
  a single-segment timeline.
\<close>

definition panelDelete :: "real option \<Rightarrow> string \<Rightarrow> model \<Rightarrow> model" where
  "panelDelete preview selectedId m =
     mutate preview
       (\<lambda>m'. if length (segments m') \<le> 1 then m'
              else
                (case findIndex (\<lambda>s. seg_id s = selectedId) (segments m') of
                   None \<Rightarrow> m'
                 | Some idx \<Rightarrow>
                     (let segs = removeAt (segments m') idx;
                          sel = map_option seg_id (jsIndex segs (idx - 1))
                      in m'\<lparr>segments := segs, selectedClipId := sel,
                             selectedClipIds := (if truthy sel then [the sel] else [])\<rparr>))) m"

text \<open>Delta decoding as the specification words it: \<open>cursor += max(0, rawTime)\<close>.\<close>

fun deltaDecode_spec :: "real \<Rightarrow> real list \<Rightarrow> real list" where
  "deltaDecode_spec cursor [] = []"
| "deltaDecode_spec cursor (r # rs) = (cursor + max 0 r) # deltaDecode_spec (cursor + max 0 r) rs"

text \<open>
  The rule for a header version below 3 as the specification words it: a raw time that
  decreases relative to the previous raw time is a delta (\<open>cursor += max(0, rawTime)\<close>),
  any other raw time is absolute and becomes the cursor.
\<close>

fun legacyDecode_spec :: "real \<Rightarrow> real option \<Rightarrow> real list \<Rightarrow> real list" where
  "legacyDecode_spec cursor prev [] = []"
| "legacyDecode_spec cursor prev (r # rs) =
     (if belowPrev r prev
      then (cursor + max 0 r) # legacyDecode_spec (cursor + max 0 r) (Some r) rs
      else r # legacyDecode_spec r (Some r) rs)"

section \<open>Initial values and auxiliary notions\<close>

text \<open>\<open>createInitialSegment(duration)\<close>, with the fresh id as an argument.\<close>

definition createInitialSegment :: "string \<Rightarrow> real \<Rightarrow> segment" where
  "createInitialSegment newId duration =
     \<lparr>seg_id = newId, label = ''Clip 1'', sourceId = None, start = 0, seg_end = duration,
      timelineDuration = Some duration\<rparr>"

text \<open>\<open>createModel()\<close>, restricted to the modelled fields.\<close>

definition createModel :: model where
  "createModel =
     \<lparr>events = [], outputEvents = [], sources = [], composedDuration = 0, segments = [],
      selectedClipId = None, selectedClipIds = [], playheadTime = 0, clipboardSegment = None,
      menuClipId = None\<rparr>"


section \<open>Verified properties\<close>

subsection \<open>Colour resolution\<close>

lemma toHexByte_hex2: "v \<le> 255 \<Longrightarrow> toHexByte v = hex2 v"
proof (cases "v < 16")
  case True
  then show ?thesis
    by (simp add: toHexByte_def clamp_def toString16.simps [of v] padStart2_def hex2_def hexDigit_def)
next
  case False
  assume "v \<le> 255"
  with False have "v div 16 < 16" by simp
  with False \<open>v \<le> 255\<close> show ?thesis
    by (simp add: toHexByte_def clamp_def toString16.simps [of v] toString16.simps [of "v div 16"]
        padStart2_def hex2_def min_def)
qed

lemma step_le: "r < 6 \<Longrightarrow> step ! r \<le> 255"
proof -
  assume "r < 6"
  then consider "r = 0" | "r = 1" | "r = 2" | "r = 3" | "r = 4" | "r = 5" by linarith
  then show ?thesis by cases (simp_all add: step_def)
qed

lemma ansi256_eq_spec:
  assumes "length pal = 16" "index \<le> 255"
  shows "ansi256ToHex index pal = resolve256_spec index pal"
proof -
  have v: "clamp index 0 255 = index" using assms by (simp add: clamp_def)
  consider "index < 16" | "16 \<le> index" "index < 232" | "232 \<le> index" by linarith
  then show ?thesis
  proof cases
    case 1
    then show ?thesis using assms
      by (simp add: ansi256ToHex_def v resolve256_spec_def jsIndex_def)
  next
    case 2
    have r: "(index - 16) div 36 < 6" using 2 by simp
    have g: "((index - 16) mod 36) div 6 < 6" by (simp add: less_mult_imp_div_less)
    have b: "(index - 16) mod 6 < 6" by simp
    note e = toHexByte_hex2 [OF step_le [OF r]] toHexByte_hex2 [OF step_le [OF g]]
      toHexByte_hex2 [OF step_le [OF b]]
    show ?thesis using 2
      by (simp add: ansi256ToHex_def v resolve256_spec_def Let_def rgbToHex_def
          e [unfolded step_def] step_def)
  next
    case 3
    have "8 + (index - 232) * 10 \<le> 255" using assms by simp
    then show ?thesis using 3
      by (simp add: ansi256ToHex_def v resolve256_spec_def Let_def rgbToHex_def toHexByte_hex2
          mult.commute)
  qed
qed

lemma ansi256_examples:
  "ansi256ToHex 196 pal = Some ''#ff0000''"
  "ansi256ToHex 232 pal = Some ''#080808''"
  "ansi256ToHex 255 pal = Some ''#eeeeee''"
  by code_simp+

text \<open>
  C8.  On a 16-entry palette and for every index from 0 to 255, \<open>ansi256ToHex\<close> computes
  what the specification's formula gives: the palette entry for 0-15, the 6x6x6 cube
  through the step table for 16-231, the grey level \<open>8 + 10 * (index - 232)\<close> for
  232-255.  Index 196 is \<open>#ff0000\<close>, 232 is \<open>#080808\<close> and 255 is \<open>#eeeeee\<close>.
\<close>

theorem ansi256ToHex_follows_spec:
  assumes "length pal = 16" and "index \<le> 255"
  shows "ansi256ToHex index pal = resolve256_spec index pal
       \<and> ansi256ToHex 196 pal = Some ''#ff0000''
       \<and> ansi256ToHex 232 pal = Some ''#080808''
       \<and> ansi256ToHex 255 pal = Some ''#eeeeee''"
  using ansi256_eq_spec [OF assms] ansi256_examples [of pal] by simp

theorem ansi256ToHex_follows_spec_witness:
  "length DEFAULT_ANSI_PALETTE = 16 \<and> (21::nat) \<le> 255
   \<and> ansi256ToHex 21 DEFAULT_ANSI_PALETTE = resolve256_spec 21 DEFAULT_ANSI_PALETTE
   \<and> resolve256_spec 21 DEFAULT_ANSI_PALETTE = Some ''#0000ff''
   \<and> ansi256ToHex 9 DEFAULT_ANSI_PALETTE = Some ''#ff0000''"
proof -
  have l: "length DEFAULT_ANSI_PALETTE = 16" by (simp add: DEFAULT_ANSI_PALETTE_def)
  have i: "(21::nat) \<le> 255" by simp
  have s: "resolve256_spec 21 DEFAULT_ANSI_PALETTE = Some ''#0000ff''" by code_simp
  have n: "ansi256ToHex 9 DEFAULT_ANSI_PALETTE = Some ''#ff0000''" by code_simp
  show ?thesis using ansi256ToHex_follows_spec [OF l i] l s n by simp
qed

subsection \<open>SGR reset\<close>

text \<open>
  C7.  Whatever SGR parameter lists were applied before, starting from the default
  style, applying the parameter list \<open>[0]\<close> gives the default style: no foreground, no
  background, and bold, dim, italic, underline, inverse and strike all false.  The same
  holds from any style at all, the empty parameter list acts as \<open>[0]\<close>, and the escape
  sequences \<open>ESC [ 0 m\<close> and \<open>ESC [ m\<close> reset the current style of the terminal.
\<close>

theorem sgr_zero_resets_style:
  "applySgr th [0] (foldl (\<lambda>s ps. applySgr th ps s) makeDefaultStyle history)
     = \<lparr>fg = None, bg = None, bold = False, dim = False, italic = False,
        underline = False, inverse = False, strike = False\<rparr>
   \<and> applySgr th [0] st
     = \<lparr>fg = None, bg = None, bold = False, dim = False, italic = False,
        underline = False, inverse = False, strike = False\<rparr>
   \<and> applySgr th [] st = applySgr th [0] st
   \<and> handleEscape rows cols th [ESC, CHR ''['', CHR ''0'', CHR ''m''] t
     = Inr (t\<lparr>currentStyle := makeDefaultStyle\<rparr>)
   \<and> handleEscape rows cols th [ESC, CHR ''['', CHR ''m''] t
     = Inr (t\<lparr>currentStyle := makeDefaultStyle\<rparr>)"
proof -
  have z: "\<And>s. applySgr th [0] s = makeDefaultStyle"
    by (simp add: applySgr_def sgrBody_def)
  have e: "applySgr th [] st = applySgr th [0] st"
    by (simp add: applySgr_def)
  have h0: "handleEscape rows cols th [ESC, CHR ''['', CHR ''0'', CHR ''m''] t
     = Inr (t\<lparr>currentStyle := makeDefaultStyle\<rparr>)"
    by (simp add: handleEscape_def isFinal_def isParamChar_def isPrivate_def toParam_def
        isDigit_def Let_def z)
  have h1: "handleEscape rows cols th [ESC, CHR ''['', CHR ''m''] t
     = Inr (t\<lparr>currentStyle := makeDefaultStyle\<rparr>)"
    by (simp add: handleEscape_def isFinal_def isParamChar_def isPrivate_def Let_def z)
  show ?thesis using z e h0 h1 by (simp add: makeDefaultStyle_def)
qed

theorem sgr_zero_resets_style_witness:
  "applySgr defaultTheme [0]
     (foldl (\<lambda>s ps. applySgr defaultTheme ps s) makeDefaultStyle [[1, 31], [38, 5, 196, 4]])
     = \<lparr>fg = None, bg = None, bold = False, dim = False, italic = False,
        underline = False, inverse = False, strike = False\<rparr>
   \<and> foldl (\<lambda>s ps. applySgr defaultTheme ps s) makeDefaultStyle [[1, 31], [38, 5, 196, 4]]
     = \<lparr>fg = Some ''#ff0000'', bg = None, bold = True, dim = False, italic = False,
        underline = True, inverse = False, strike = False\<rparr>"
proof -
  have r: "foldl (\<lambda>s ps. applySgr defaultTheme ps s) makeDefaultStyle [[1, 31], [38, 5, 196, 4]]
     = \<lparr>fg = Some ''#ff0000'', bg = None, bold = True, dim = False, italic = False,
        underline = True, inverse = False, strike = False\<rparr>"
    by code_simp
  show ?thesis
    using sgr_zero_resets_style [of defaultTheme "[[1, 31], [38, 5, 196, 4]]" makeDefaultStyle
        1 1 "initTerm 1 1"] r
    by simp
qed

subsection \<open>Replay never fails on a grid with at least one row\<close>








lemma ensureBounds_ok: "gridOk rows t' \<Longrightarrow> length (screen t) = rows \<Longrightarrow> gridOk rows (ensureBounds rows cols t)"
  by (auto simp: ensureBounds_def gridOk_def clamp_def)


















subsection \<open>Erase-to-cursor after a full line\<close>

text \<open>
  C10.  On a 1 x 1 grid, the text \<open>a ESC [ 1 K\<close> leaves the only screen line with two
  cells, and \<open>renderTerminalToHtml\<close> returns a line of two characters: writing the last
  column leaves \<open>col = cols\<close>, and erase-in-line mode 1 then blanks the columns
  \<open>0 .. col\<close>, one past the end of the line.
\<close>

theorem erase_to_cursor_widens_full_line:
  "replay 1 1 defaultTheme [\<lparr>time = 0, data = CHR ''a'' # ESC # ''[1K''\<rparr>] (initTerm 1 1)
     = Inr \<lparr>screen = [[defaultCell, defaultCell]], row = 0, col = 1,
            currentStyle = makeDefaultStyle\<rparr>
   \<and> renderTerminalToHtml 1 1 [\<lparr>time = 0, data = CHR ''a'' # ESC # ''[1K''\<rparr>] defaultTheme
     = Inr ''  ''"
  by code_simp

subsection \<open>Time normalization\<close>

lemma delta_times:
  "map fst (normalizeLoop True cursor prevRaw es) = deltaDecode_spec cursor (rawTimes es)"
  by (induction True cursor prevRaw es rule: normalizeLoop.induct) (simp_all add: Let_def)

lemma deltaDecode_lower: "t \<in> set (deltaDecode_spec cursor rs) \<Longrightarrow> cursor \<le> t"
proof (induction rs arbitrary: cursor)
  case Nil
  then show ?case by simp
next
  case (Cons r rs)
  then show ?case by (fastforce simp: max_def split: if_splits)
qed

lemma deltaDecode_sorted: "sorted (deltaDecode_spec cursor rs)"
  by (induction rs arbitrary: cursor) (auto dest: deltaDecode_lower)

lemma absolute_times:
  "sorted (rawTimes es) \<Longrightarrow> \<forall>t\<in>set (rawTimes es). \<not> belowPrev t prevRaw \<Longrightarrow>
   map fst (normalizeLoop False cursor prevRaw es) = rawTimes es"
proof (induction False cursor prevRaw es rule: normalizeLoop.induct)
  case (4 cursor prevRaw rawTime k d es)
  then show ?case by (fastforce simp: belowPrev_def not_less)
qed simp_all

lemma length_deltaDecode: "length (deltaDecode_spec cursor rs) = length rs"
  by (induction rs arbitrary: cursor) simp_all

lemma legacy_times:
  "map fst (normalizeLoop False cursor prevRaw es) = legacyDecode_spec cursor prevRaw (rawTimes es)"
  by (induction False cursor prevRaw es rule: normalizeLoop.induct) (simp_all add: Let_def)

lemma length_legacyDecode: "length (legacyDecode_spec cursor prev rs) = length rs"
  by (induction rs arbitrary: cursor prev) simp_all

lemma legacyDecode_head:
  "rs \<noteq> [] \<Longrightarrow> legacyDecode_spec cursor None rs ! 0 = rs ! 0"
  by (cases rs) (simp_all add: belowPrev_def)

lemma legacyDecode_step:
  "Suc i < length rs \<Longrightarrow>
   legacyDecode_spec cursor prev rs ! Suc i =
     (if rs ! Suc i < rs ! i then legacyDecode_spec cursor prev rs ! i + max 0 (rs ! Suc i)
      else rs ! Suc i)"
proof (induction rs arbitrary: cursor prev i)
  case Nil
  then show ?case by simp
next
  case (Cons r rs)
  show ?case
  proof (cases i)
    case 0
    with Cons.prems obtain r' rs' where rs: "rs = r' # rs'" by (cases rs) auto
    show ?thesis unfolding 0 rs by (simp add: belowPrev_def)
  next
    case (Suc j)
    with Cons.prems have j: "Suc j < length rs" by simp
    show ?thesis unfolding Suc using Cons.IH [OF j] by simp
  qed
qed

lemma legacyDecode_pair:
  assumes "Suc i < length rs"
  shows "legacyDecode_spec cursor prev rs ! i \<le> legacyDecode_spec cursor prev rs ! Suc i
         \<longleftrightarrow> rs ! Suc i < rs ! i \<or> legacyDecode_spec cursor prev rs ! i \<le> rs ! Suc i"
  using legacyDecode_step [OF assms, of cursor prev] by (auto simp: max_def)

lemma legacyDecode_sorted_iff:
  "sorted (legacyDecode_spec cursor prev rs) \<longleftrightarrow>
   (\<forall>i. Suc i < length rs \<and> rs ! i \<le> rs ! Suc i \<longrightarrow>
        legacyDecode_spec cursor prev rs ! i \<le> rs ! Suc i)"
  unfolding sorted_iff_nth_Suc length_legacyDecode
  using legacyDecode_pair [of _ rs cursor prev] by (metis not_less)

text \<open>
  C1, as the code has it.  The result has one event for each well-formed entry with a
  finite time.  With a header version of 3 or more the normalized times are the running
  sums of \<open>max(0, rawTime)\<close> and are non-decreasing.  With an older version the first
  raw time is kept; a later raw time below the previous raw time is a delta added to the
  previous normalized time, and any other raw time is taken as absolute.  An adjacent
  pair of the result is in order exactly when the later raw time is such a delta or is
  at least the earlier normalized time; so the result is non-decreasing exactly when
  every raw time taken as absolute is at least the normalized time before it, which
  holds in particular when the raw times are non-decreasing (the result then equals
  them).
\<close>

theorem normalizeEvents_times:
  "length (normalizeEvents es version) = length (rawTimes es)
   \<and> (3 \<le> version \<longrightarrow>
      map fst (normalizeEvents es version) = deltaDecode_spec 0 (rawTimes es)
      \<and> sorted (map fst (normalizeEvents es version)))
   \<and> (version < 3 \<longrightarrow>
      map fst (normalizeEvents es version) = legacyDecode_spec 0 None (rawTimes es)
      \<and> (rawTimes es \<noteq> [] \<longrightarrow> map fst (normalizeEvents es version) ! 0 = rawTimes es ! 0)
      \<and> (\<forall>i. Suc i < length (rawTimes es) \<longrightarrow>
            map fst (normalizeEvents es version) ! Suc i =
              (if rawTimes es ! Suc i < rawTimes es ! i
               then map fst (normalizeEvents es version) ! i + max 0 (rawTimes es ! Suc i)
               else rawTimes es ! Suc i)
            \<and> (map fst (normalizeEvents es version) ! i \<le> map fst (normalizeEvents es version) ! Suc i
                 \<longleftrightarrow> rawTimes es ! Suc i < rawTimes es ! i
                     \<or> map fst (normalizeEvents es version) ! i \<le> rawTimes es ! Suc i))
      \<and> (sorted (map fst (normalizeEvents es version)) \<longleftrightarrow>
           (\<forall>i. Suc i < length (rawTimes es) \<and> rawTimes es ! i \<le> rawTimes es ! Suc i \<longrightarrow>
                map fst (normalizeEvents es version) ! i \<le> rawTimes es ! Suc i))
      \<and> (sorted (rawTimes es) \<longrightarrow> map fst (normalizeEvents es version) = rawTimes es))"
proof -
  let ?ns = "map fst (normalizeEvents es version)"
  let ?ts = "rawTimes es"
  have len: "length (normalizeEvents es version) = length ?ts"
  proof (cases "3 \<le> version")
    case True
    then have "?ns = deltaDecode_spec 0 ?ts" by (simp add: normalizeEvents_def delta_times)
    then have "length ?ns = length ?ts" by (simp add: length_deltaDecode)
    then show ?thesis by simp
  next
    case False
    then have "?ns = legacyDecode_spec 0 None ?ts" by (simp add: normalizeEvents_def legacy_times)
    then have "length ?ns = length ?ts" by (simp add: length_legacyDecode)
    then show ?thesis by simp
  qed
  have a: "3 \<le> version \<longrightarrow> ?ns = deltaDecode_spec 0 ?ts \<and> sorted ?ns"
    by (simp add: normalizeEvents_def delta_times deltaDecode_sorted)
  have b: "version < 3 \<longrightarrow>
      ?ns = legacyDecode_spec 0 None ?ts
      \<and> (?ts \<noteq> [] \<longrightarrow> ?ns ! 0 = ?ts ! 0)
      \<and> (\<forall>i. Suc i < length ?ts \<longrightarrow>
            ?ns ! Suc i = (if ?ts ! Suc i < ?ts ! i then ?ns ! i + max 0 (?ts ! Suc i) else ?ts ! Suc i)
            \<and> (?ns ! i \<le> ?ns ! Suc i \<longleftrightarrow> ?ts ! Suc i < ?ts ! i \<or> ?ns ! i \<le> ?ts ! Suc i))
      \<and> (sorted ?ns \<longleftrightarrow>
           (\<forall>i. Suc i < length ?ts \<and> ?ts ! i \<le> ?ts ! Suc i \<longrightarrow> ?ns ! i \<le> ?ts ! Suc i))
      \<and> (sorted ?ts \<longrightarrow> ?ns = ?ts)"
  proof
    assume v: "version < 3"
    then have e: "?ns = legacyDecode_spec 0 None ?ts"
      by (simp add: normalizeEvents_def legacy_times)
    have h: "?ts \<noteq> [] \<longrightarrow> ?ns ! 0 = ?ts ! 0"
      unfolding e by (simp add: legacyDecode_head)
    have s: "\<forall>i. Suc i < length ?ts \<longrightarrow>
            ?ns ! Suc i = (if ?ts ! Suc i < ?ts ! i then ?ns ! i + max 0 (?ts ! Suc i) else ?ts ! Suc i)
            \<and> (?ns ! i \<le> ?ns ! Suc i \<longleftrightarrow> ?ts ! Suc i < ?ts ! i \<or> ?ns ! i \<le> ?ts ! Suc i)"
      unfolding e using legacyDecode_step legacyDecode_pair by blast
    have i: "sorted ?ns \<longleftrightarrow>
           (\<forall>i. Suc i < length ?ts \<and> ?ts ! i \<le> ?ts ! Suc i \<longrightarrow> ?ns ! i \<le> ?ts ! Suc i)"
      unfolding e by (rule legacyDecode_sorted_iff)
    have r: "sorted ?ts \<longrightarrow> ?ns = ?ts"
      using absolute_times [of es None 0] v by (auto simp: normalizeEvents_def belowPrev_def)
    from e h s i r show "?ns = legacyDecode_spec 0 None ?ts
      \<and> (?ts \<noteq> [] \<longrightarrow> ?ns ! 0 = ?ts ! 0)
      \<and> (\<forall>i. Suc i < length ?ts \<longrightarrow>
            ?ns ! Suc i = (if ?ts ! Suc i < ?ts ! i then ?ns ! i + max 0 (?ts ! Suc i) else ?ts ! Suc i)
            \<and> (?ns ! i \<le> ?ns ! Suc i \<longleftrightarrow> ?ts ! Suc i < ?ts ! i \<or> ?ns ! i \<le> ?ts ! Suc i))
      \<and> (sorted ?ns \<longleftrightarrow>
           (\<forall>i. Suc i < length ?ts \<and> ?ts ! i \<le> ?ts ! Suc i \<longrightarrow> ?ns ! i \<le> ?ts ! Suc i))
      \<and> (sorted ?ts \<longrightarrow> ?ns = ?ts)" by (intro conjI)
  qed
  from len a b show ?thesis by (intro conjI)
qed


theorem normalizeEvents_times_witness:
  "map fst (normalizeEvents [Event (Finite 1) ''o'' ''a'', NotEvent, Event (Finite (-2)) ''o'' ''b'',
       Event NonFinite ''o'' ''c'', Event (Finite 3) ''i'' ''d''] 3) = [1, 1, 4]
   \<and> sorted (map fst (normalizeEvents [Event (Finite 1) ''o'' ''a'', NotEvent,
       Event (Finite (-2)) ''o'' ''b'', Event NonFinite ''o'' ''c'', Event (Finite 3) ''i'' ''d''] 3))
   \<and> map fst (normalizeEvents [Event (Finite 5) ''o'' ''a'', Event (Finite 1) ''o'' ''b'',
       Event (Finite (1/2)) ''o'' ''c'', Event (Finite 7) ''o'' ''d''] 2) = [5, 6, 13/2, 7]
   \<and> sorted (map fst (normalizeEvents [Event (Finite 5) ''o'' ''a'', Event (Finite 1) ''o'' ''b'',
       Event (Finite (1/2)) ''o'' ''c'', Event (Finite 7) ''o'' ''d''] 2))
   \<and> map fst (normalizeEvents [Event (Finite 1) ''o'' ''a'', Event (Finite 3) ''i'' ''d''] 2) = [1, 3]"
proof -
  let ?A = "[Event (Finite 1) ''o'' ''a'', NotEvent, Event (Finite (-2)) ''o'' ''b'',
       Event NonFinite ''o'' ''c'', Event (Finite 3) ''i'' ''d'']"
  let ?B = "[Event (Finite 5) ''o'' ''a'', Event (Finite 1) ''o'' ''b'',
       Event (Finite (1/2)) ''o'' ''c'', Event (Finite 7) ''o'' ''d'']"
  let ?C = "[Event (Finite 1) ''o'' ''a'', Event (Finite 3) ''i'' ''d'']"
  have v: "(3::real) \<le> 3" "(2::real) < 3" by simp_all
  note a = normalizeEvents_times [of ?A 3, THEN conjunct2, THEN conjunct1, THEN mp, OF v(1)]
  note b = normalizeEvents_times [of ?B 2, THEN conjunct2, THEN conjunct2, THEN mp, OF v(2)]
  note c = normalizeEvents_times [of ?C 2, THEN conjunct2, THEN conjunct2, THEN mp, OF v(2)]
  have a1: "map fst (normalizeEvents ?A 3) = [1, 1, 4]"
    using a [THEN conjunct1] by simp
  have a2: "sorted (map fst (normalizeEvents ?A 3))"
    by (rule a [THEN conjunct2])
  have b1: "map fst (normalizeEvents ?B 2) = [5, 6, 13/2, 7]"
    using b [THEN conjunct1] by (simp add: belowPrev_def)
  have "\<forall>i. Suc i < length (rawTimes ?B) \<and> rawTimes ?B ! i \<le> rawTimes ?B ! Suc i \<longrightarrow>
            map fst (normalizeEvents ?B 2) ! i \<le> rawTimes ?B ! Suc i"
  proof (intro allI impI)
    fix i
    assume h: "Suc i < length (rawTimes ?B) \<and> rawTimes ?B ! i \<le> rawTimes ?B ! Suc i"
    then have "i = 0 \<or> i = 1 \<or> i = 2" by (simp; arith)
    then show "map fst (normalizeEvents ?B 2) ! i \<le> rawTimes ?B ! Suc i"
      using h unfolding b1 by (elim disjE) simp_all
  qed
  then have b2: "sorted (map fst (normalizeEvents ?B 2))"
    using b [THEN conjunct2, THEN conjunct2, THEN conjunct2, THEN conjunct1] by (rule rev_iffD2)
  have s: "sorted (rawTimes ?C)" by simp
  have c1: "map fst (normalizeEvents ?C 2) = [1, 3]"
    using c [THEN conjunct2, THEN conjunct2, THEN conjunct2, THEN conjunct2, THEN mp, OF s] by simp
  from a1 a2 b1 b2 c1 show ?thesis by (intro conjI)
qed

text \<open>
  The raw times 5, 1, 2 of a version 2 header normalize to 5, 6, 2: the raw time 2 is
  not below the previous raw time 1 and is taken as absolute although the cursor stands
  at 6.  (The raw times 5, 1, 0.5, 7 normalize to 5, 6, 6.5, 7, which is in order.)
\<close>

theorem normalizeEvents_legacy_counterexample:
  "map fst (normalizeEvents [Event (Finite 5) ''o'' ''a'', Event (Finite 1) ''o'' ''b'',
       Event (Finite 2) ''o'' ''c''] 2) = [5, 6, 2]
   \<and> \<not> sorted (map fst (normalizeEvents [Event (Finite 5) ''o'' ''a'', Event (Finite 1) ''o'' ''b'',
       Event (Finite 2) ''o'' ''c''] 2))"
  by (simp add: normalizeEvents_def belowPrev_def)

subsection \<open>Export builder\<close>














subsection \<open>Timeline to source time\<close>

lemma foldl_len: "foldl (\<lambda>s seg. s + segmentLength seg) a xs = a + sum_list (map segmentLength xs)"
  by (induction xs arbitrary: a) simp_all

lemma clipStart_sum: "clipStartInTimeline segs i = sum_list (map segmentLength (take i segs))"
  by (simp add: clipStartInTimeline_def foldl_len)

lemma sum_len_nonneg: "0 \<le> sum_list (map segmentLength xs)"
  by (induction xs) (simp_all add: segmentLength_def max_def add_nonneg_nonneg)




lemma clipStart_Suc:
  "i < length segs \<Longrightarrow>
   clipStartInTimeline segs (Suc i) = clipStartInTimeline segs i + segmentLength (segs ! i)"
  by (simp add: clipStart_sum take_Suc_conv_app_nth)




subsection \<open>Split\<close>


lemma splitLoop_here:
  assumes "c < p" "p < c + segmentLength seg"
  shows "splitLoop idL idR p before (seg # rest) c =
     (if splitSourceTime seg (p - c) \<le> start seg + 0.01 \<or> splitSourceTime seg (p - c) \<ge> seg_end seg - 0.01
      then None
      else Some (before @ [leftPiece idL seg (p - c), rightPiece idR seg (p - c)] @ rest, idL))"
  using assms by (simp add: Let_def leftPiece_def)

lemma splitLoop_skip:
  "c + sum_list (map segmentLength pre) \<le> p \<Longrightarrow>
   splitLoop idL idR p before (pre @ segs) c
     = splitLoop idL idR p (before @ pre) segs (c + sum_list (map segmentLength pre))"
proof (induction pre arbitrary: c before)
  case Nil
  then show ?case by simp
next
  case (Cons x pre)
  have nn: "0 \<le> sum_list (map segmentLength pre)" by (rule sum_len_nonneg)
  have "\<not> p < c + segmentLength x" using Cons.prems nn by simp
  moreover have "c + segmentLength x + sum_list (map segmentLength pre) \<le> p"
    using Cons.prems by (simp add: add.assoc)
  ultimately show ?case using Cons.IH [of "c + segmentLength x" "before @ [x]"]
    by (simp add: Let_def add.assoc)
qed

lemma splitLoop_at:
  assumes i: "i < length segs"
    and lo: "clipStartInTimeline segs i < p" and hi: "p < clipStartInTimeline segs (Suc i)"
  shows "splitLoop idL idR p [] segs 0 =
     (if splitSourceTime (segs ! i) (p - clipStartInTimeline segs i) \<le> start (segs ! i) + 0.01
         \<or> splitSourceTime (segs ! i) (p - clipStartInTimeline segs i) \<ge> seg_end (segs ! i) - 0.01
      then None
      else Some (take i segs @ [leftPiece idL (segs ! i) (p - clipStartInTimeline segs i),
                  rightPiece idR (segs ! i) (p - clipStartInTimeline segs i)] @ drop (Suc i) segs, idL))"
proof -
  have segs: "segs = take i segs @ (segs ! i) # drop (Suc i) segs"
    using i by (simp add: id_take_nth_drop)
  have le: "0 + sum_list (map segmentLength (take i segs)) \<le> p"
    using lo by (simp add: clipStart_sum)
  have "splitLoop idL idR p [] segs 0
      = splitLoop idL idR p [] (take i segs @ (segs ! i) # drop (Suc i) segs) 0"
    using segs by simp
  also have "\<dots> = splitLoop idL idR p ([] @ take i segs) ((segs ! i) # drop (Suc i) segs)
      (0 + sum_list (map segmentLength (take i segs)))"
    by (rule splitLoop_skip [OF le])
  also have "\<dots> = splitLoop idL idR p (take i segs) ((segs ! i) # drop (Suc i) segs)
      (clipStartInTimeline segs i)"
    by (simp add: clipStart_sum)
  finally show ?thesis
    using splitLoop_here [of "clipStartInTimeline segs i" p "segs ! i" idL idR "take i segs"
        "drop (Suc i) segs"] lo hi i
    by (simp add: clipStart_Suc)
qed

lemma splitLoop_none:
  "\<forall>j<length segs. \<not> (c + sum_list (map segmentLength (take j segs)) < p
        \<and> p < c + sum_list (map segmentLength (take (Suc j) segs))) \<Longrightarrow>
   splitLoop idL idR p before segs c = None"
proof (induction segs arbitrary: c before)
  case Nil
  then show ?case by simp
next
  case (Cons x segs)
  from Cons.prems [rule_format, of 0] have h0: "\<not> (c < p \<and> p < c + segmentLength x)" by simp
  have "\<forall>j<length segs. \<not> (c + segmentLength x + sum_list (map segmentLength (take j segs)) < p
        \<and> p < c + segmentLength x + sum_list (map segmentLength (take (Suc j) segs)))"
  proof (intro allI impI)
    fix j assume "j < length segs"
    then have "Suc j < length (x # segs)" by simp
    from Cons.prems [rule_format, OF this] show "\<not> (c + segmentLength x + sum_list (map segmentLength (take j segs)) < p
        \<and> p < c + segmentLength x + sum_list (map segmentLength (take (Suc j) segs)))"
      by (simp add: add.assoc)
  qed
  from Cons.IH [OF this] h0 show ?case by (simp add: Let_def)
qed










subsection \<open>Split followed by heal\<close>


lemma segments_mutate: "segments (mutate pv f m) = segments (f m)"
  by (simp add: mutate_def rebuildComposedDuration_def Let_def)

lemma splitAtPlayhead_success:
  assumes "splitAtPlayhead idL idR m = (True, m')"
  shows "\<exists>i<length (segments m).
           clipStartInTimeline (segments m) i < playheadTime m
         \<and> playheadTime m < clipStartInTimeline (segments m) (Suc i)
         \<and> m' = m\<lparr>segments := take i (segments m)
                     @ [leftPiece idL (segments m ! i) (playheadTime m - clipStartInTimeline (segments m) i),
                        rightPiece idR (segments m ! i) (playheadTime m - clipStartInTimeline (segments m) i)]
                     @ drop (Suc i) (segments m),
                   selectedClipId := Some idL\<rparr>"
proof -
  let ?p = "playheadTime m" and ?segs = "segments m"
  from assms have ne: "splitLoop idL idR ?p [] ?segs 0 \<noteq> None"
    by (auto simp: splitAtPlayhead_def split: if_splits option.splits)
  have "\<not> (\<forall>j<length ?segs. \<not> (0 + sum_list (map segmentLength (take j ?segs)) < ?p
        \<and> ?p < 0 + sum_list (map segmentLength (take (Suc j) ?segs))))"
  proof
    assume "\<forall>j<length ?segs. \<not> (0 + sum_list (map segmentLength (take j ?segs)) < ?p
        \<and> ?p < 0 + sum_list (map segmentLength (take (Suc j) ?segs)))"
    then have "splitLoop idL idR ?p [] ?segs 0 = None" by (rule splitLoop_none)
    with ne show False by simp
  qed
  then obtain i where i: "i < length ?segs"
    and lo: "clipStartInTimeline ?segs i < ?p" and hi: "?p < clipStartInTimeline ?segs (Suc i)"
    by (auto simp: clipStart_sum)
  from assms splitLoop_at [OF i lo hi, of idL idR]
  have "m' = m\<lparr>segments := take i ?segs
                     @ [leftPiece idL (?segs ! i) (?p - clipStartInTimeline ?segs i),
                        rightPiece idR (?segs ! i) (?p - clipStartInTimeline ?segs i)]
                     @ drop (Suc i) ?segs,
                   selectedClipId := Some idL\<rparr>"
    by (auto simp: splitAtPlayhead_def split: if_splits option.splits)
  with i lo hi show ?thesis by blast
qed







subsection \<open>Cut and delete keep the last segment\<close>

lemma removeAt_nonempty: "2 \<le> length xs \<Longrightarrow> removeAt xs i \<noteq> []"
proof -
  assume l: "2 \<le> length xs"
  have "length (removeAt xs i) = length (take i xs) + length (drop (Suc i) xs)"
    by (simp add: removeAt_def)
  also have "\<dots> \<ge> 1" using l by (cases "i < length xs") simp_all
  finally show ?thesis by auto
qed

lemma insertAt_nonempty: "insertAt xs i x \<noteq> []"
  by (simp add: insertAt_def)

lemma clipAction_single:
  "length (segments m) = 1 \<Longrightarrow> clipAction pv ans nid Cut i m = m"
  "length (segments m) = 1 \<Longrightarrow> clipAction pv ans nid Delete i m = m"
  by (simp_all add: clipAction_def)

lemma cut_single:
  "length (segments m) = 1 \<Longrightarrow> applyMenuAction pv ans nid Cut ov m = m"
  by (simp add: applyMenuAction_def clipAction_single split: option.splits)

lemma delete_single:
  "length (segments m) = 1 \<Longrightarrow> applyMenuAction pv ans nid Delete ov m = m"
  by (simp add: applyMenuAction_def clipAction_single split: option.splits)

lemma scaleSingle_segments:
  "length (segments (scaleSingleClip pv ans cid m)) = length (segments m)"
  by (simp add: scaleSingleClip_def segments_mutate split: option.splits prompt.splits jsnum.splits)

lemma scaleSelected_segments:
  "length (segments (scaleSelectedClipsTotal pv ans m)) = length (segments m)"
  by (simp add: scaleSelectedClipsTotal_def segments_mutate Let_def
      split: option.splits prompt.splits jsnum.splits)

lemma scaleSingle_nonempty:
  "segments m \<noteq> [] \<Longrightarrow> segments (scaleSingleClip pv ans cid m) \<noteq> []"
  using scaleSingle_segments [of pv ans cid m] by (metis length_0_conv)

lemma scaleSelected_nonempty:
  "segments m \<noteq> [] \<Longrightarrow> segments (scaleSelectedClipsTotal pv ans m) \<noteq> []"
  using scaleSelected_segments [of pv ans m] by (metis length_0_conv)

lemma clipAction_nonempty:
  assumes "segments m \<noteq> []"
  shows "segments (clipAction pv ans nid action i m) \<noteq> []"
proof (cases action)
  case ScaleSelected
  then show ?thesis using assms by (simp add: clipAction_def)
next
  case Copy
  then show ?thesis using assms by (simp add: clipAction_def)
next
  case Cut
  have "\<not> length (segments m) \<le> 1 \<Longrightarrow> removeAt (segments m) i \<noteq> []"
    by (rule removeAt_nonempty) simp
  then show ?thesis using assms Cut
    by (simp add: clipAction_def segments_mutate removeClip_def Let_def)
next
  case Delete
  have "\<not> length (segments m) \<le> 1 \<Longrightarrow> removeAt (segments m) i \<noteq> []"
    by (rule removeAt_nonempty) simp
  then show ?thesis using assms Delete
    by (simp add: clipAction_def segments_mutate removeClip_def Let_def)
next
  case ScaleClip
  have "segments (m\<lparr>menuClipId := None\<rparr>) \<noteq> []" using assms by simp
  from scaleSingle_nonempty [OF this] show ?thesis using ScaleClip
    by (simp add: clipAction_def)
next
  case PasteBefore
  then show ?thesis using assms
    by (simp add: clipAction_def segments_mutate insertAt_nonempty Let_def split: option.splits)
next
  case PasteAfter
  then show ?thesis using assms
    by (simp add: clipAction_def segments_mutate insertAt_nonempty Let_def split: option.splits)
next
  case OtherAction
  then show ?thesis using assms by (simp add: clipAction_def)
qed

lemma menu_nonempty:
  assumes "segments m \<noteq> []"
  shows "segments (applyMenuAction pv ans nid action ov m) \<noteq> []"
proof (cases "action = ScaleSelected")
  case True
  have "segments (m\<lparr>menuClipId := None\<rparr>) \<noteq> []" using assms by simp
  from scaleSelected_nonempty [OF this] show ?thesis using True
    by (simp add: applyMenuAction_def)
next
  case False
  then show ?thesis using assms clipAction_nonempty [OF assms]
    by (simp add: applyMenuAction_def split: option.splits)
qed

lemma split_nonempty:
  "segments m \<noteq> [] \<Longrightarrow> segments (snd (splitAtPlayhead idL idR m)) \<noteq> []"
proof (cases "fst (splitAtPlayhead idL idR m)")
  case True
  then have "splitAtPlayhead idL idR m = (True, snd (splitAtPlayhead idL idR m))"
    by (metis (full_types) prod.collapse)
  from splitAtPlayhead_success [OF this] show ?thesis by auto
next
  case False
  assume "segments m \<noteq> []"
  moreover have "snd (splitAtPlayhead idL idR m) = m"
    using False by (auto simp: splitAtPlayhead_def split: if_splits option.splits)
  ultimately show ?thesis by simp
qed

lemma move_nonempty:
  "segments m \<noteq> [] \<Longrightarrow> segments (snd (moveSegment m a b after)) \<noteq> []"
  by (auto simp: moveSegment_def Let_def insertAt_nonempty split: option.splits)

lemma heal_nonempty:
  "segments m \<noteq> [] \<Longrightarrow> segments (healSelectedClips pv nid m) \<noteq> []"
  by (auto simp: healSelectedClips_def segments_mutate healMutator_def Let_def split: option.splits)

lemma panelDelete_nonempty:
  "segments m \<noteq> [] \<Longrightarrow> segments (panelDelete pv sel m) \<noteq> []"
proof -
  assume ne: "segments m \<noteq> []"
  have r: "\<And>i. \<not> length (segments m) \<le> 1 \<Longrightarrow> removeAt (segments m) i \<noteq> []"
    by (rule removeAt_nonempty) simp
  show ?thesis using ne
    by (simp add: panelDelete_def segments_mutate Let_def r split: option.splits)
qed

lemma panelDelete_single:
  "length (segments m) = 1 \<Longrightarrow> segments (panelDelete pv sel m) = segments m"
  by (simp add: panelDelete_def segments_mutate)

text \<open>
  C6.  On a timeline with exactly one segment, the menu actions cut and delete return
  before they change anything, so the whole model (segment list, the segment's fields,
  \<open>composedDuration\<close>) is the same afterwards, and the panel's Delete button leaves the
  segment list as it is.  No modelled edit operation (the menu actions, panel delete,
  split, move, heal, the two scale operations) turns a non-empty segment list into an
  empty one.
\<close>

theorem last_segment_is_kept:
  "(length (segments m) = 1 \<longrightarrow>
      applyMenuAction pv ans nid Cut ov m = m
      \<and> applyMenuAction pv ans nid Delete ov m = m
      \<and> segments (panelDelete pv sel m) = segments m)
   \<and> (segments m \<noteq> [] \<longrightarrow>
      segments (applyMenuAction pv ans nid action ov m) \<noteq> []
      \<and> segments (panelDelete pv sel m) \<noteq> []
      \<and> segments (snd (splitAtPlayhead idL idR m)) \<noteq> []
      \<and> segments (snd (moveSegment m a b after)) \<noteq> []
      \<and> segments (healSelectedClips pv nid m) \<noteq> []
      \<and> segments (scaleSingleClip pv ans cid m) \<noteq> []
      \<and> segments (scaleSelectedClipsTotal pv ans m) \<noteq> [])"
proof -
  have a: "length (segments m) = 1 \<longrightarrow>
      applyMenuAction pv ans nid Cut ov m = m
      \<and> applyMenuAction pv ans nid Delete ov m = m
      \<and> segments (panelDelete pv sel m) = segments m"
    by (simp add: cut_single delete_single panelDelete_single)
  have b: "segments m \<noteq> [] \<longrightarrow>
      segments (applyMenuAction pv ans nid action ov m) \<noteq> []
      \<and> segments (panelDelete pv sel m) \<noteq> []
      \<and> segments (snd (splitAtPlayhead idL idR m)) \<noteq> []
      \<and> segments (snd (moveSegment m a b after)) \<noteq> []
      \<and> segments (healSelectedClips pv nid m) \<noteq> []"
    by (simp add: menu_nonempty panelDelete_nonempty split_nonempty move_nonempty heal_nonempty)
  have c: "segments m \<noteq> [] \<longrightarrow>
      segments (scaleSingleClip pv ans cid m) \<noteq> []
      \<and> segments (scaleSelectedClipsTotal pv ans m) \<noteq> []"
    by (simp add: scaleSingle_nonempty scaleSelected_nonempty)
  show ?thesis using a b c by blast
qed


theorem last_segment_is_kept_witness:
  "applyMenuAction None Cancelled ''n'' Cut (Some ''a'')
       (createModel\<lparr>composedDuration := 2, segments := [createInitialSegment ''a'' 2]\<rparr>)
     = createModel\<lparr>composedDuration := 2, segments := [createInitialSegment ''a'' 2]\<rparr>
   \<and> applyMenuAction None Cancelled ''n'' Delete (Some ''a'')
       (createModel\<lparr>composedDuration := 2, segments := [createInitialSegment ''a'' 2]\<rparr>)
     = createModel\<lparr>composedDuration := 2, segments := [createInitialSegment ''a'' 2]\<rparr>
   \<and> map seg_id (segments (applyMenuAction None Cancelled ''n'' Delete (Some ''a'')
       (createModel\<lparr>composedDuration := 4,
          segments := [createInitialSegment ''a'' 2, createInitialSegment ''b'' 2]\<rparr>))) = [''b'']
   \<and> segments (applyMenuAction None Cancelled ''n'' Delete (Some ''a'')
       (createModel\<lparr>composedDuration := 4,
          segments := [createInitialSegment ''a'' 2, createInitialSegment ''b'' 2]\<rparr>)) \<noteq> []"
proof -
  let ?m1 = "createModel\<lparr>composedDuration := 2, segments := [createInitialSegment ''a'' 2]\<rparr>"
  let ?m2 = "createModel\<lparr>composedDuration := 4,
          segments := [createInitialSegment ''a'' 2, createInitialSegment ''b'' 2]\<rparr>"
  have l: "length (segments ?m1) = 1" by simp
  have n: "segments ?m2 \<noteq> []" by simp
  have v: "map seg_id (segments (applyMenuAction None Cancelled ''n'' Delete (Some ''a'') ?m2))
      = [''b'']"
    by (simp add: applyMenuAction_def menuClipIndex_def clipAction_def Let_def orStr_def
        truthy_def createInitialSegment_def segments_mutate removeClip_def removeAt_def)
  note t1 = last_segment_is_kept [of ?m1 None Cancelled "''n''" "Some ''a''" "''a''" Delete
        "''L''" "''R''" "''a''" "''a''" False "''a''"]
  note t2 = last_segment_is_kept [of ?m2 None Cancelled "''n''" "Some ''a''" "''a''" Delete
        "''L''" "''R''" "''a''" "''b''" False "''a''"]
  note k1 = t1 [THEN conjunct1, THEN mp, OF l]
  note k2 = t2 [THEN conjunct2, THEN mp, OF n]
  show ?thesis
  proof (intro conjI)
    show "applyMenuAction None Cancelled ''n'' Cut (Some ''a'') ?m1 = ?m1"
      by (rule k1 [THEN conjunct1])
    show "applyMenuAction None Cancelled ''n'' Delete (Some ''a'') ?m1 = ?m1"
      by (rule k1 [THEN conjunct2, THEN conjunct1])
    show "map seg_id (segments (applyMenuAction None Cancelled ''n'' Delete (Some ''a'') ?m2))
      = [''b'']"
      by (rule v)
    show "segments (applyMenuAction None Cancelled ''n'' Delete (Some ''a'') ?m2) \<noteq> []"
      by (rule k2 [THEN conjunct1])
  qed
qed

end
